theory Spec2Isabelle
  imports Complex_Main "HOL-Library.Sublist"
begin

section \<open>Values exchanged with the server\<close>

text \<open>
  The agent reads untyped JSON: the response bodies of the server and the
  \<^verbatim>\<open>config\<close> dictionary of a task. A JSON object is an association list whose first
  binding of a key is the one Python's \<^verbatim>\<open>dict\<close> holds. Python's \<^verbatim>\<open>None\<close> is \<open>JNull\<close>.
\<close>

datatype json =
    JNull
  | JBool bool
  | JInt int
  | JFloat rat
  | JStr string
  | JList "json list"
  | JDict "(string \<times> json) list"

text \<open>Python truthiness, as used by \<^verbatim>\<open>x or y\<close>.\<close>

fun truthy :: "json \<Rightarrow> bool" where
  "truthy JNull = False"
| "truthy (JBool b) = b"
| "truthy (JInt i) = (i \<noteq> 0)"
| "truthy (JFloat r) = (r \<noteq> 0)"
| "truthy (JStr s) = (s \<noteq> [])"
| "truthy (JList xs) = (xs \<noteq> [])"
| "truthy (JDict kvs) = (kvs \<noteq> [])"

definition py_or :: "json \<Rightarrow> json \<Rightarrow> json" where
  "py_or x y = (if truthy x then x else y)"

text \<open>
  A formatted string \<^verbatim>\<open>f"...{x}..."\<close> is kept as its pieces: literal text and the
  values whose \<^verbatim>\<open>str()\<close> is spliced in.
\<close>

datatype piece = Lit string | Fmt json

type_synonym pystr = "piece list"

subsection \<open>Exceptions (communication/exceptions.py)\<close>

text \<open>
  The five classes of \<^verbatim>\<open>exceptions.py\<close> with their \<^verbatim>\<open>message\<close>, \<^verbatim>\<open>status_code\<close> and
  (for the rate limit) \<^verbatim>\<open>retry_after\<close>, and \<open>PyError\<close> for every other subclass of
  \<^verbatim>\<open>Exception\<close>. Its argument is the text of \<^verbatim>\<open>str(e)\<close>; for an exception that Python
  itself raises, the name of its class stands for that text. \<open>ConnectionError\<close> is only
  ever built without a status code.
\<close>

datatype exn =
    AuthenticationError json int
  | RateLimitError json int int
  | ServerError json int
  | ConnectionError pystr
  | ApiError json int
  | PyError string

fun is_ApiError :: "exn \<Rightarrow> bool" where
  "is_ApiError (PyError _) = False"
| "is_ApiError _ = True"

definition api_str :: "json \<Rightarrow> int \<Rightarrow> pystr" where
  "api_str message status_code =
     (if status_code \<noteq> 0 then [Lit ''['', Fmt (JInt status_code), Lit ''] '', Fmt message]
      else [Fmt message])"

fun str_exn :: "exn \<Rightarrow> pystr" where
  "str_exn (AuthenticationError m sc) = api_str m sc"
| "str_exn (RateLimitError m sc ra) = api_str m sc"
| "str_exn (ServerError m sc) = api_str m sc"
| "str_exn (ConnectionError m) = m"
| "str_exn (ApiError m sc) = api_str m sc"
| "str_exn (PyError t) = [Lit t]"

subsection \<open>Dictionary access\<close>

text \<open>
  \<^verbatim>\<open>d.get(k, default)\<close> and \<^verbatim>\<open>d[k]\<close>. Only a dictionary has \<^verbatim>\<open>get\<close>; every other JSON
  value raises \<^verbatim>\<open>AttributeError\<close>. Iterating a list gives its elements, a dictionary its
  keys, a string its characters; the other values are not iterable.
\<close>

fun dict_get :: "json \<Rightarrow> string \<Rightarrow> json \<Rightarrow> exn + json" where
  "dict_get (JDict kvs) k d = Inr (case map_of kvs k of None \<Rightarrow> d | Some v \<Rightarrow> v)"
| "dict_get _ k d = Inl (PyError ''AttributeError'')"

fun dict_item :: "json \<Rightarrow> string \<Rightarrow> exn + json" where
  "dict_item (JDict kvs) k = (case map_of kvs k of None \<Rightarrow> Inl (PyError ''KeyError'') | Some v \<Rightarrow> Inr v)"
| "dict_item _ k = Inl (PyError ''TypeError'')"

fun py_iter :: "json \<Rightarrow> exn + json list" where
  "py_iter (JList xs) = Inr xs"
| "py_iter (JDict kvs) = Inr (map (\<lambda>kv. JStr (fst kv)) kvs)"
| "py_iter (JStr s) = Inr (map (\<lambda>c. JStr [c]) s)"
| "py_iter _ = Inl (PyError ''TypeError'')"

section \<open>Checks (checks/base.py)\<close>

datatype CheckStatus = PASSED | WARNING | CRITICAL | ERROR | FAILED

fun status_value :: "CheckStatus \<Rightarrow> string" where
  "status_value PASSED = ''passed''"
| "status_value WARNING = ''warning''"
| "status_value CRITICAL = ''critical''"
| "status_value ERROR = ''error''"
| "status_value FAILED = ''failed''"

record CheckResult =
  cr_status :: CheckStatus
  cr_score :: int
  cr_message :: "string option"
  cr_details :: json
  cr_duration :: rat

text \<open>
  A check instance is used for one \<^verbatim>\<open>execute()\<close> call, which returns a result or raises.
  What it does is decided outside the core, so an instance is the outcome of that call.
  A check class is its constructor: it takes the configuration and may raise.
\<close>

datatype check = Check (execute: "exn + CheckResult")

type_synonym check_class = "json \<Rightarrow> exn + check"

section \<open>Check registry (checks/registry.py)\<close>

type_synonym registry = "string \<rightharpoonup> check_class"

definition CheckRegistry_register :: "string \<Rightarrow> check_class \<Rightarrow> registry \<Rightarrow> registry" where
  "CheckRegistry_register check_type check_class checks = checks(check_type \<mapsto> check_class)"

text \<open>
  \<^verbatim>\<open>cls._checks.get(check_type)\<close>: the keys are strings, so a hashable value that is not
  a string finds nothing, and a list or a dictionary is unhashable.
\<close>

fun CheckRegistry_get :: "registry \<Rightarrow> json \<Rightarrow> exn + check_class option" where
  "CheckRegistry_get checks (JStr t) = Inr (checks t)"
| "CheckRegistry_get checks (JList _) = Inl (PyError ''TypeError'')"
| "CheckRegistry_get checks (JDict _) = Inl (PyError ''TypeError'')"
| "CheckRegistry_get checks _ = Inr None"

definition CheckRegistry_create :: "registry \<Rightarrow> json \<Rightarrow> json \<Rightarrow> exn + check option" where
  "CheckRegistry_create checks check_type config =
     (case CheckRegistry_get checks check_type of
        Inl e \<Rightarrow> Inl e
      | Inr None \<Rightarrow> Inr None
      | Inr (Some check_class) \<Rightarrow>
          (case check_class config of Inl e \<Rightarrow> Inl e | Inr c \<Rightarrow> Inr (Some c)))"

section \<open>Status map (agent.py, \_execute\_task)\<close>

definition status_map :: "(string \<times> string) list" where
  "status_map =
     [(''passed'', ''PASSED''), (''warning'', ''WARNING''), (''critical'', ''CRITICAL''),
      (''error'', ''ERROR''), (''failed'', ''ERROR'')]"

definition status_map_get :: "string \<Rightarrow> string" where
  "status_map_get v = (case map_of status_map v of None \<Rightarrow> ''ERROR'' | Some w \<Rightarrow> w)"

section \<open>Configuration (config/loader.py)\<close>

record ApiConfig =
  endpoint :: string
  api_key :: string
  poll_interval :: int
  timeout :: int
  verify_ssl :: bool

record PermissionsConfig =
  level :: string
  allowed_paths :: "string list"
  denied_paths :: "string list"

text \<open>Of \<^verbatim>\<open>AgentConfig\<close>, the fields the core reads.\<close>

record AgentConfig =
  api :: ApiConfig
  permissions :: PermissionsConfig

text \<open>
  The two \<^verbatim>\<open>for\<close> loops of \<^verbatim>\<open>is_path_allowed\<close> return at the first entry whose absolute
  form is a prefix of the path's. \<^verbatim>\<open>os.path.abspath\<close> belongs to the Python library and is
  a parameter.
\<close>

fun starts_with_any :: "(string \<Rightarrow> string) \<Rightarrow> string \<Rightarrow> string list \<Rightarrow> bool" where
  "starts_with_any abspath path [] = False"
| "starts_with_any abspath path (entry # entries) =
     (if prefix (abspath entry) path then True else starts_with_any abspath path entries)"

definition is_path_allowed :: "(string \<Rightarrow> string) \<Rightarrow> AgentConfig \<Rightarrow> string \<Rightarrow> bool" where
  "is_path_allowed abspath cfg path =
     (let path = abspath path in
      if starts_with_any abspath path (denied_paths (permissions cfg)) then False
      else if starts_with_any abspath path (allowed_paths (permissions cfg)) then True
      else False)"

section \<open>API client (communication/api\_client.py)\<close>

record Task =
  tid :: json
  check_id :: json
  check_type :: json
  site_id :: json
  config :: json
  priority :: json

record TaskResult =
  task_id :: json
  status :: string
  score :: int
  message :: "pystr option"
  details :: "json option"
  duration :: "int option"

text \<open>
  The backoff state of the client. The index starts at 0 and is only reset to 0 or
  incremented, so it is a natural number.
\<close>

record ApiClient =
  current_backoff_index :: nat
  last_error_type :: "string option"
  closed :: bool

definition RATE_LIMIT_BACKOFF :: "int list" where
  "RATE_LIMIT_BACKOFF = [120, 240, 600]"

definition SERVER_ERROR_BACKOFF :: "int list" where
  "SERVER_ERROR_BACKOFF = [300, 600, 1200]"

definition reset_backoff :: "ApiClient \<Rightarrow> ApiClient" where
  "reset_backoff c = c\<lparr>current_backoff_index := 0, last_error_type := None\<rparr>"

definition backoff_list :: "string \<Rightarrow> int list" where
  "backoff_list error_type =
     (if error_type = ''rate_limit'' then RATE_LIMIT_BACKOFF else SERVER_ERROR_BACKOFF)"

text \<open>The index read is at most \<open>length - 1\<close>, so the list access is in range.\<close>

definition get_backoff_interval :: "string \<Rightarrow> ApiClient \<Rightarrow> int \<times> ApiClient" where
  "get_backoff_interval error_type c =
     (let c1 = (if Some error_type \<noteq> last_error_type c
                then c\<lparr>current_backoff_index := 0, last_error_type := Some error_type\<rparr>
                else c);
          interval = backoff_list error_type !
                       min (current_backoff_index c1) (length (backoff_list error_type) - 1)
      in (interval, c1\<lparr>current_backoff_index := current_backoff_index c1 + 1\<rparr>))"

text \<open>\<open>n\<close> consecutive calls with the same error class: the intervals and the final state.\<close>

fun backoff_calls :: "nat \<Rightarrow> string \<Rightarrow> ApiClient \<Rightarrow> int list \<times> ApiClient" where
  "backoff_calls 0 error_type c = ([], c)"
| "backoff_calls (Suc n) error_type c =
     (case get_backoff_interval error_type c of
        (interval, c1) \<Rightarrow>
          (case backoff_calls n error_type c1 of (rest, c2) \<Rightarrow> (interval # rest, c2)))"

subsection \<open>Responses\<close>

text \<open>
  What \<^verbatim>\<open>_handle_response\<close> reads of a response: the status code, the body as
  \<^verbatim>\<open>response.json()\<close> parses it (\<open>None\<close> when it raises \<^verbatim>\<open>ValueError\<close>), the raw text, and
  the \<^verbatim>\<open>Retry-After\<close> header: absent, a text that \<^verbatim>\<open>int()\<close> reads as a number (\<open>Inr\<close>), or
  a text that \<^verbatim>\<open>int()\<close> rejects (\<open>Inl\<close>, an HTTP date for instance).
\<close>

record response =
  status_code :: int
  body :: "json option"
  text_of :: string
  retry_after_header :: "(string + int) option"

fun int_retry_after :: "(string + int) option \<Rightarrow> exn + int" where
  "int_retry_after None = Inr 120"
| "int_retry_after (Some (Inr n)) = Inr n"
| "int_retry_after (Some (Inl t)) = Inl (PyError ''ValueError'')"

definition handle_response :: "response \<Rightarrow> ApiClient \<Rightarrow> (exn + json) \<times> ApiClient" where
  "handle_response r c =
     (let data = (case body r of
                    Some j \<Rightarrow> j
                  | None \<Rightarrow> JDict [(''message'',
                              JStr (if text_of r \<noteq> [] then text_of r else ''Unknown error''))])
      in if 200 \<le> status_code r \<and> status_code r < 300 then (Inr data, reset_backoff c)
         else if status_code r = 401 \<or> status_code r = 403 then
           (case dict_get data ''message'' (JStr ''Authentication failed'') of
              Inl e \<Rightarrow> (Inl e, c)
            | Inr m \<Rightarrow> (Inl (AuthenticationError m (status_code r)), c))
         else if status_code r = 429 then
           (case int_retry_after (retry_after_header r) of
              Inl e \<Rightarrow> (Inl e, c)
            | Inr retry_after \<Rightarrow>
                (case dict_get data ''message'' (JStr ''Rate limit exceeded'') of
                   Inl e \<Rightarrow> (Inl e, c)
                 | Inr m \<Rightarrow> (Inl (RateLimitError m (status_code r) retry_after), c)))
         else if status_code r \<ge> 500 then
           (case dict_get data ''message'' (JStr ''Server error'') of
              Inl e \<Rightarrow> (Inl e, c)
            | Inr m \<Rightarrow> (Inl (ServerError m (status_code r)), c))
         else
           (case dict_get data ''message'' (JStr ''Request failed'') of
              Inl e \<Rightarrow> (Inl e, c)
            | Inr m \<Rightarrow> (Inl (ApiError m (status_code r)), c)))"

subsection \<open>Requests\<close>

text \<open>
  The calls the agent makes that are visible outside it, in order.
\<close>

datatype event =
    Heartbeat
  | GetTasks
  | SubmitResult TaskResult
  | Create json
  | Execute
  | Sleep int
  | Close

text \<open>
  What \<^verbatim>\<open>session.request\<close> does: it returns a response, or raises one of the
  \<^verbatim>\<open>requests\<close> exceptions that \<^verbatim>\<open>_request\<close> catches (the argument is the text of the
  exception).
\<close>

datatype transport =
    Responded response
  | ConnectionFailed string
  | TimedOut string
  | RequestFailed string

text \<open>
  What surrounds the agent and does not change: the server, which answers the
  \<open>n\<close>-th request of the run, the registered check classes, the loaded configuration and
  \<^verbatim>\<open>os.path.abspath\<close>.
\<close>

record env =
  server :: "nat \<Rightarrow> transport"
  checks :: registry
  agent_config :: AgentConfig
  abspath :: "string \<Rightarrow> string"

text \<open>
  The state of a run: the fields of \<^verbatim>\<open>HexaScanAgent\<close> (\<open>running\<close>,
  \<open>current_poll_interval\<close>, \<open>api_client\<close>), the local \<open>last_heartbeat\<close> of \<^verbatim>\<open>start\<close>, the
  clock that \<^verbatim>\<open>time.time()\<close> reads (in seconds; it moves in \<^verbatim>\<open>time.sleep\<close> only), the number
  of requests sent and the trace of calls.
\<close>

record state =
  running :: bool
  current_poll_interval :: int
  api_client :: ApiClient
  last_heartbeat :: int
  clock :: int
  requests :: nat
  trace :: "event list"

definition emit :: "event \<Rightarrow> state \<Rightarrow> state" where
  "emit ev s = s\<lparr>trace := trace s @ [ev]\<rparr>"

definition request :: "env \<Rightarrow> state \<Rightarrow> (exn + json) \<times> state" where
  "request e s =
     (let s1 = s\<lparr>requests := requests s + 1\<rparr> in
      case server e (requests s) of
        Responded r \<Rightarrow>
          (case handle_response r (api_client s1) of
             (res, c) \<Rightarrow> (res, s1\<lparr>api_client := c\<rparr>))
      | ConnectionFailed t \<Rightarrow>
          (Inl (ConnectionError [Lit ''Failed to connect to server: '', Lit t]), s1)
      | TimedOut t \<Rightarrow> (Inl (ConnectionError [Lit ''Request timed out: '', Lit t]), s1)
      | RequestFailed t \<Rightarrow> (Inl (ConnectionError [Lit ''Request failed: '', Lit t]), s1))"

definition heartbeat :: "env \<Rightarrow> state \<Rightarrow> (exn + json) \<times> state" where
  "heartbeat e s = request e (emit Heartbeat s)"

definition submit_result :: "env \<Rightarrow> TaskResult \<Rightarrow> state \<Rightarrow> (exn + json) \<times> state" where
  "submit_result e result s = request e (emit (SubmitResult result) s)"

text \<open>
  One task object of the response. The keyword arguments of \<^verbatim>\<open>Task(...)\<close> are evaluated
  in order, so the first failing one decides the exception.
\<close>

definition parse_task :: "json \<Rightarrow> exn + Task" where
  "parse_task task_data =
     (case dict_get task_data ''taskId'' JNull of Inl e \<Rightarrow> Inl e | Inr task_id_field \<Rightarrow>
      case dict_get task_data ''id'' JNull of Inl e \<Rightarrow> Inl e | Inr id_field \<Rightarrow>
      case dict_item task_data ''checkId'' of Inl e \<Rightarrow> Inl e | Inr check_id_field \<Rightarrow>
      case dict_item task_data ''checkType'' of Inl e \<Rightarrow> Inl e | Inr check_type_field \<Rightarrow>
      case dict_item task_data ''siteId'' of Inl e \<Rightarrow> Inl e | Inr site_id_field \<Rightarrow>
      case dict_get task_data ''checkConfig'' JNull of Inl e \<Rightarrow> Inl e | Inr check_config_field \<Rightarrow>
      case dict_get task_data ''config'' (JDict []) of Inl e \<Rightarrow> Inl e | Inr config_field \<Rightarrow>
      case dict_get task_data ''priority'' (JInt 0) of Inl e \<Rightarrow> Inl e | Inr priority_field \<Rightarrow>
        Inr \<lparr>tid = py_or task_id_field id_field,
             check_id = check_id_field,
             check_type = check_type_field,
             site_id = site_id_field,
             config = py_or check_config_field config_field,
             priority = priority_field\<rparr>)"

fun parse_tasks :: "json list \<Rightarrow> exn + Task list" where
  "parse_tasks [] = Inr []"
| "parse_tasks (task_data # rest) =
     (case parse_task task_data of
        Inl e \<Rightarrow> Inl e
      | Inr task \<Rightarrow> (case parse_tasks rest of Inl e \<Rightarrow> Inl e | Inr tasks \<Rightarrow> Inr (task # tasks)))"

definition tasks_of_response :: "json \<Rightarrow> exn + Task list" where
  "tasks_of_response resp =
     (case dict_get resp ''data'' (JDict []) of Inl e \<Rightarrow> Inl e | Inr data \<Rightarrow>
      case dict_get data ''tasks'' (JList []) of Inl e \<Rightarrow> Inl e | Inr tasks_field \<Rightarrow>
      case py_iter tasks_field of Inl e \<Rightarrow> Inl e | Inr items \<Rightarrow> parse_tasks items)"

definition get_tasks :: "env \<Rightarrow> state \<Rightarrow> (exn + Task list) \<times> state" where
  "get_tasks e s =
     (case request e (emit GetTasks s) of
        (Inl ex, s1) \<Rightarrow> (Inl ex, s1)
      | (Inr resp, s1) \<Rightarrow> (tasks_of_response resp, s1))"

section \<open>Agent loop (agent.py)\<close>

text \<open>\<^verbatim>\<open>time.sleep\<close> raises \<^verbatim>\<open>ValueError\<close> on a negative length.\<close>

definition sleep :: "int \<Rightarrow> state \<Rightarrow> (exn + unit) \<times> state" where
  "sleep d s =
     (if d < 0 then (Inl (PyError ''ValueError''), s)
      else (Inr (), (emit (Sleep d) s)\<lparr>clock := clock s + d\<rparr>))"

definition stop :: "state \<Rightarrow> state" where
  "stop s = emit Close (s\<lparr>running := False, api_client := (api_client s)\<lparr>closed := True\<rparr>\<rparr>)"

text \<open>\<^verbatim>\<open>_send_heartbeat\<close> and \<^verbatim>\<open>_poll_tasks\<close>: \<^verbatim>\<open>except ApiError\<close> logs and goes on.\<close>

definition send_heartbeat :: "env \<Rightarrow> state \<Rightarrow> (exn + unit) \<times> state" where
  "send_heartbeat e s =
     (case heartbeat e s of
        (Inr _, s1) \<Rightarrow>
          (Inr (), s1\<lparr>current_poll_interval := poll_interval (api (agent_config e))\<rparr>)
      | (Inl ex, s1) \<Rightarrow> (if is_ApiError ex then (Inr (), s1) else (Inl ex, s1)))"

definition poll_tasks :: "env \<Rightarrow> state \<Rightarrow> (exn + Task list) \<times> state" where
  "poll_tasks e s =
     (case get_tasks e s of
        (Inr tasks, s1) \<Rightarrow> (Inr tasks, s1)
      | (Inl ex, s1) \<Rightarrow> (if is_ApiError ex then (Inr [], s1) else (Inl ex, s1)))"

definition submit_error_result :: "env \<Rightarrow> Task \<Rightarrow> pystr \<Rightarrow> int \<Rightarrow> state \<Rightarrow> (exn + unit) \<times> state" where
  "submit_error_result e task msg dur s =
     (case submit_result e
             \<lparr>task_id = tid task, status = ''ERROR'', score = 0, message = Some msg,
              details = None, duration = Some dur\<rparr> s of
        (Inr _, s1) \<Rightarrow> (Inr (), s1)
      | (Inl ex, s1) \<Rightarrow> (if is_ApiError ex then (Inr (), s1) else (Inl ex, s1)))"

text \<open>
  The loop over \<^verbatim>\<open>task_paths\<close>: the first path that is not allowed, if there is one.
  \<^verbatim>\<open>os.path.abspath\<close> raises \<^verbatim>\<open>TypeError\<close> on a value that is not a string.
\<close>

fun first_denied :: "env \<Rightarrow> json list \<Rightarrow> exn + json option" where
  "first_denied e [] = Inr None"
| "first_denied e (JStr p # rest) =
     (if \<not> is_path_allowed (abspath e) (agent_config e) p then Inr (Some (JStr p))
      else first_denied e rest)"
| "first_denied e (_ # rest) = Inl (PyError ''TypeError'')"

definition elapsed_ms :: "int \<Rightarrow> state \<Rightarrow> int" where
  "elapsed_ms start_time s = (clock s - start_time) * 1000"

text \<open>The body of the \<^verbatim>\<open>try\<close> of \<^verbatim>\<open>_execute_task\<close>.\<close>

definition execute_task_try :: "env \<Rightarrow> Task \<Rightarrow> int \<Rightarrow> state \<Rightarrow> (exn + unit) \<times> state" where
  "execute_task_try e task start_time s =
     (case dict_get (config task) ''paths'' (JList []) of Inl ex \<Rightarrow> (Inl ex, s) | Inr task_paths \<Rightarrow>
      case py_iter task_paths of Inl ex \<Rightarrow> (Inl ex, s) | Inr paths \<Rightarrow>
      case first_denied e paths of
        Inl ex \<Rightarrow> (Inl ex, s)
      | Inr (Some path) \<Rightarrow>
          submit_error_result e task
            [Lit ''Path not allowed by agent permissions: '', Fmt path] (elapsed_ms start_time s) s
      | Inr None \<Rightarrow>
          (let s1 = emit (Create (check_type task)) s in
           case CheckRegistry_create (checks e) (check_type task) (config task) of
             Inl ex \<Rightarrow> (Inl ex, s1)
           | Inr None \<Rightarrow>
               submit_error_result e task
                 [Lit ''Unknown check type: '', Fmt (check_type task)] (elapsed_ms start_time s1) s1
           | Inr (Some chk) \<Rightarrow>
               (let s2 = emit Execute s1 in
                case execute chk of
                  Inl ex \<Rightarrow> (Inl ex, s2)
                | Inr result \<Rightarrow>
                    (case submit_result e
                            \<lparr>task_id = tid task,
                             status = status_map_get (status_value (cr_status result)),
                             score = cr_score result,
                             message = map_option (\<lambda>m. [Lit m]) (cr_message result),
                             details = Some (cr_details result),
                             duration = Some (elapsed_ms start_time s2)\<rparr> s2 of
                       (Inl ex, s3) \<Rightarrow> (Inl ex, s3)
                     | (Inr _, s3) \<Rightarrow> (Inr (), s3)))))"

text \<open>\<^verbatim>\<open>_execute_task\<close>: the \<^verbatim>\<open>try\<close> and its \<^verbatim>\<open>except Exception\<close>.\<close>

definition execute_task :: "env \<Rightarrow> Task \<Rightarrow> state \<Rightarrow> (exn + unit) \<times> state" where
  "execute_task e task s =
     (let start_time = clock s in
      case execute_task_try e task start_time s of
        (Inr _, s1) \<Rightarrow> (Inr (), s1)
      | (Inl ex, s1) \<Rightarrow> submit_error_result e task (str_exn ex) (elapsed_ms start_time s1) s1)"

fun execute_tasks :: "env \<Rightarrow> Task list \<Rightarrow> state \<Rightarrow> (exn + unit) \<times> state" where
  "execute_tasks e [] s = (Inr (), s)"
| "execute_tasks e (task # rest) s =
     (if \<not> running s then (Inr (), s)
      else case execute_task e task s of
             (Inl ex, s1) \<Rightarrow> (Inl ex, s1)
           | (Inr _, s1) \<Rightarrow> execute_tasks e rest s1)"

text \<open>The body of the \<^verbatim>\<open>try\<close> inside \<^verbatim>\<open>while self.running\<close>.\<close>

definition loop_try :: "env \<Rightarrow> state \<Rightarrow> (exn + unit) \<times> state" where
  "loop_try e s =
     (let current_time = clock s in
      case (if current_time - last_heartbeat s \<ge> 60
            then (case send_heartbeat e s of
                    (Inl ex, s1) \<Rightarrow> (Inl ex, s1)
                  | (Inr _, s1) \<Rightarrow> (Inr (), s1\<lparr>last_heartbeat := current_time\<rparr>))
            else (Inr (), s)) of
        (Inl ex, s1) \<Rightarrow> (Inl ex, s1)
      | (Inr _, s1) \<Rightarrow>
          (case poll_tasks e s1 of
             (Inl ex, s2) \<Rightarrow> (Inl ex, s2)
           | (Inr tasks, s2) \<Rightarrow>
               (case execute_tasks e tasks s2 of
                  (Inl ex, s3) \<Rightarrow> (Inl ex, s3)
                | (Inr _, s3) \<Rightarrow> sleep (current_poll_interval s3) s3)))"

text \<open>
  The \<^verbatim>\<open>except\<close> clauses of the loop, in the order of the source. A \<^verbatim>\<open>ValueError\<close> of the
  \<^verbatim>\<open>time.sleep\<close> inside a handler leaves \<^verbatim>\<open>start\<close>; the lengths 30 and 60 never raise it.
\<close>

fun loop_except :: "exn \<Rightarrow> state \<Rightarrow> state" where
  "loop_except (AuthenticationError m sc) s = stop s"
| "loop_except (RateLimitError m sc ra) s =
     (case get_backoff_interval ''rate_limit'' (api_client s) of
        (backoff, c) \<Rightarrow> s\<lparr>api_client := c, current_poll_interval := backoff\<rparr>)"
| "loop_except (ServerError m sc) s =
     (case get_backoff_interval ''server_error'' (api_client s) of
        (backoff, c) \<Rightarrow> s\<lparr>api_client := c, current_poll_interval := backoff\<rparr>)"
| "loop_except (ConnectionError m) s = snd (sleep 30 s)"
| "loop_except ex s = snd (sleep 60 s)"

definition iteration :: "env \<Rightarrow> state \<Rightarrow> state" where
  "iteration e s =
     (case loop_try e s of
        (Inr _, s1) \<Rightarrow> s1
      | (Inl ex, s1) \<Rightarrow> loop_except ex s1)"

text \<open>
  \<^verbatim>\<open>while self.running\<close>, for at most \<open>n\<close> iterations: the loop of a healthy agent does not
  end.
\<close>

fun run :: "nat \<Rightarrow> env \<Rightarrow> state \<Rightarrow> state" where
  "run 0 e s = s"
| "run (Suc n) e s = (if running s then run n e (iteration e s) else s)"

text \<open>The state in which \<^verbatim>\<open>start\<close> enters the loop, at time \<open>now\<close>.\<close>

definition start_state :: "env \<Rightarrow> int \<Rightarrow> state" where
  "start_state e now =
     \<lparr>running = True,
      current_poll_interval = poll_interval (api (agent_config e)),
      api_client = \<lparr>current_backoff_index = 0, last_error_type = None, closed = False\<rparr>,
      last_heartbeat = 0,
      clock = now,
      requests = 0,
      trace = []\<rparr>"

section \<open>Observations on a run\<close>

fun is_submit :: "event \<Rightarrow> bool" where
  "is_submit (SubmitResult r) = True"
| "is_submit _ = False"

definition submissions :: "state \<Rightarrow> event list" where
  "submissions s = filter is_submit (trace s)"

fun is_error_result_for :: "Task \<Rightarrow> event \<Rightarrow> bool" where
  "is_error_result_for task (SubmitResult r) = (status r = ''ERROR'' \<and> task_id r = tid task)"
| "is_error_result_for task _ = False"

text \<open>The interval that \<^verbatim>\<open>get_backoff_interval\<close> reads at index \<open>i\<close>.\<close>

definition interval_at :: "string \<Rightarrow> nat \<Rightarrow> int" where
  "interval_at et i = backoff_list et ! min i (length (backoff_list et) - 1)"

text \<open>
  The task identifier and configuration as the specification words them: the first
  field when the key is present, the second otherwise.
\<close>

definition claimed_id :: "(string \<times> json) list \<Rightarrow> json" where
  "claimed_id kvs =
     (case map_of kvs ''taskId'' of
        Some v \<Rightarrow> v
      | None \<Rightarrow> (case map_of kvs ''id'' of Some v \<Rightarrow> v | None \<Rightarrow> JNull))"

definition claimed_config :: "(string \<times> json) list \<Rightarrow> json" where
  "claimed_config kvs =
     (case map_of kvs ''checkConfig'' of
        Some v \<Rightarrow> v
      | None \<Rightarrow> (case map_of kvs ''config'' of Some v \<Rightarrow> v | None \<Rightarrow> JDict []))"

section \<open>Concrete inputs\<close>

text \<open>The permissions and poll interval of \<^verbatim>\<open>DEFAULT_CONFIG\<close> in loader.py.\<close>

definition default_config :: AgentConfig where
  "default_config =
     \<lparr>api = \<lparr>endpoint = ''http://localhost:3000/api/v1'', api_key = ''key'',
             poll_interval = 60, timeout = 30, verify_ssl = True\<rparr>,
      permissions = \<lparr>level = ''read_only'', allowed_paths = [''/var/log'', ''/var/www''],
                     denied_paths = [''/etc/shadow'', ''/root/.ssh'']\<rparr>\<rparr>"

text \<open>\<^verbatim>\<open>os.path.abspath\<close> in the working directory \<^verbatim>\<open>/\<close>, on paths that are already normal.\<close>

definition abspath_root :: "string \<Rightarrow> string" where
  "abspath_root p = (if p \<noteq> [] \<and> hd p = CHR ''/'' then p else ''/'' @ p)"

definition reply :: "int \<Rightarrow> json \<Rightarrow> (string + int) option \<Rightarrow> transport" where
  "reply sc j ra =
     Responded \<lparr>status_code = sc, body = Some j, text_of = [], retry_after_header = ra\<rparr>"

definition no_tasks :: json where
  "no_tasks = JDict [(''data'', JDict [(''tasks'', JList [])])]"

definition passed_result :: CheckResult where
  "passed_result =
     \<lparr>cr_status = PASSED, cr_score = 100, cr_message = Some ''ok'',
      cr_details = JDict [], cr_duration = 0\<rparr>"

definition passing_check :: check_class where
  "passing_check cfg = Inr (Check (Inr passed_result))"

definition env_of :: "(nat \<Rightarrow> transport) \<Rightarrow> env" where
  "env_of srv =
     \<lparr>server = srv, checks = [''DISK_USAGE'' \<mapsto> passing_check],
      agent_config = default_config, abspath = abspath_root\<rparr>"

text \<open>Servers: the first request gets the named answer, every later one a success.\<close>

definition server_401 :: "nat \<Rightarrow> transport" where
  "server_401 n =
     (if n = 0 then reply 401 (JDict [(''message'', JStr ''Invalid API key'')]) None
      else reply 200 no_tasks None)"

definition server_429 :: "nat \<Rightarrow> transport" where
  "server_429 n =
     (if n = 0
      then reply 429 (JDict [(''message'', JStr ''Too many requests'')]) (Some (Inr 300))
      else reply 200 no_tasks None)"

definition server_500_then_ok :: "nat \<Rightarrow> transport" where
  "server_500_then_ok n =
     (if n = 0 then reply 500 (JDict [(''message'', JStr ''boom'')]) None
      else reply 200 (JDict []) None)"

definition server_429_date :: "nat \<Rightarrow> transport" where
  "server_429_date n =
     (if n = 0
      then reply 429 (JDict [(''message'', JStr ''slow down'')])
             (Some (Inl ''Fri, 31 Dec 2027 23:59:59 GMT''))
      else reply 200 (JDict []) None)"

text \<open>
  A healthy server: the heartbeat succeeds, the poll returns a task of a registered type
  with an allowed path and a task of an unregistered type, and both submissions succeed.
\<close>

definition two_tasks :: json where
  "two_tasks =
     JDict [(''data'', JDict [(''tasks'', JList
       [JDict [(''taskId'', JStr ''t1''), (''checkId'', JStr ''c1''),
               (''checkType'', JStr ''DISK_USAGE''), (''siteId'', JStr ''s1''),
               (''checkConfig'', JDict [(''paths'', JList [JStr ''/var/log''])])],
        JDict [(''id'', JStr ''t2''), (''checkId'', JStr ''c2''),
               (''checkType'', JStr ''X''), (''siteId'', JStr ''s1''),
               (''config'', JDict [])]])])]"

definition server_two_tasks :: "nat \<Rightarrow> transport" where
  "server_two_tasks n = (if n = 1 then reply 200 two_tasks None else reply 200 (JDict []) None)"

definition disk_task :: "json \<Rightarrow> Task" where
  "disk_task cfg =
     \<lparr>tid = JStr ''t1'', check_id = JStr ''c1'', check_type = JStr ''DISK_USAGE'',
      site_id = JStr ''s1'', config = cfg, priority = JInt 0\<rparr>"

definition denied_task :: Task where
  "denied_task = disk_task (JDict [(''paths'', JList [JStr ''/etc/shadow''])])"

definition used_client :: ApiClient where
  "used_client =
     \<lparr>current_backoff_index = 2, last_error_type = Some ''server_error'', closed = False\<rparr>"

text \<open>
  Two task objects: one with both conventions, where \<^verbatim>\<open>taskId\<close> is null and
  \<^verbatim>\<open>checkConfig\<close> is empty, and one with the newer names only.
\<close>

definition both_conventions :: "(string \<times> json) list" where
  "both_conventions =
     [(''taskId'', JNull), (''id'', JStr ''t-17''), (''checkId'', JStr ''c1''),
      (''checkType'', JStr ''DISK_USAGE''), (''siteId'', JStr ''s1''),
      (''checkConfig'', JDict []), (''config'', JDict [(''paths'', JList [JStr ''/var/log''])])]"

definition new_convention :: "(string \<times> json) list" where
  "new_convention =
     [(''taskId'', JStr ''t-18''), (''checkId'', JStr ''c1''),
      (''checkType'', JStr ''DISK_USAGE''), (''siteId'', JStr ''s1''),
      (''checkConfig'', JDict [(''paths'', JList [JStr ''/var/www''])])]"

definition parsed_both :: Task where
  "parsed_both =
     \<lparr>tid = JStr ''t-17'', check_id = JStr ''c1'', check_type = JStr ''DISK_USAGE'',
      site_id = JStr ''s1'', config = JDict [(''paths'', JList [JStr ''/var/log''])],
      priority = JInt 0\<rparr>"

definition parsed_new :: Task where
  "parsed_new =
     \<lparr>tid = JStr ''t-18'', check_id = JStr ''c1'', check_type = JStr ''DISK_USAGE'',
      site_id = JStr ''s1'', config = JDict [(''paths'', JList [JStr ''/var/www''])],
      priority = JInt 0\<rparr>"

section \<open>Check registry: creation and re-registration\<close>

text \<open>
  C7. For a registered check type \<open>T\<close> and a configuration \<open>C\<close> that the class accepts
  (its constructor returns an instance), \<^verbatim>\<open>CheckRegistry.create(T, C)\<close> returns that
  instance, which is not \<^verbatim>\<open>None\<close>. For an unregistered type it returns \<^verbatim>\<open>None\<close> and does
  not raise.
\<close>

theorem create_registered_or_not_found:
  "(reg T = Some cls \<and> cls C = Inr chk \<longrightarrow>
      CheckRegistry_create reg (JStr T) C = Inr (Some chk)) \<and>
   (reg T = None \<longrightarrow> CheckRegistry_create reg (JStr T) C = Inr None)"
  by (simp add: CheckRegistry_create_def)

theorem create_registered_or_not_found_witness:
  "checks (env_of server_401) ''DISK_USAGE'' = Some passing_check \<and>
   passing_check (JDict []) = Inr (Check (Inr passed_result)) \<and>
   CheckRegistry_create (checks (env_of server_401)) (JStr ''DISK_USAGE'') (JDict [])
     = Inr (Some (Check (Inr passed_result))) \<and>
   checks (env_of server_401) ''X'' = None \<and>
   CheckRegistry_create (checks (env_of server_401)) (JStr ''X'') (JDict []) = Inr None"
  using create_registered_or_not_found[of "checks (env_of server_401)" "''DISK_USAGE''"
          passing_check "JDict []" "Check (Inr passed_result)"]
        create_registered_or_not_found[of "checks (env_of server_401)" "''X''"
          passing_check "JDict []" "Check (Inr passed_result)"]
  by (simp add: env_of_def passing_check_def)

text \<open>
  C9. Registering \<open>F1\<close> and then \<open>F2\<close> under the same type identifier keeps \<open>F2\<close>: the
  lookup returns \<open>F2\<close>, and \<^verbatim>\<open>create\<close> calls \<open>F2\<close>.
\<close>

theorem register_last_wins:
  "CheckRegistry_get (CheckRegistry_register T F2 (CheckRegistry_register T F1 reg)) (JStr T)
     = Inr (Some F2) \<and>
   CheckRegistry_create (CheckRegistry_register T F2 (CheckRegistry_register T F1 reg)) (JStr T) C
     = (case F2 C of Inl ex \<Rightarrow> Inl ex | Inr chk \<Rightarrow> Inr (Some chk))"
  by (simp add: CheckRegistry_register_def CheckRegistry_create_def)

section \<open>Status map\<close>

text \<open>
  C5. The status map sends passed, warning, critical, error and failed to PASSED, WARNING,
  CRITICAL, ERROR and ERROR, every other value to ERROR, and every value to one of the
  four wire statuses.
\<close>

theorem status_map_total:
  "status_map_get (status_value PASSED) = ''PASSED'' \<and>
   status_map_get (status_value WARNING) = ''WARNING'' \<and>
   status_map_get (status_value CRITICAL) = ''CRITICAL'' \<and>
   status_map_get (status_value ERROR) = ''ERROR'' \<and>
   status_map_get (status_value FAILED) = ''ERROR'' \<and>
   (v \<notin> {''passed'', ''warning'', ''critical'', ''error'', ''failed''} \<longrightarrow>
      status_map_get v = ''ERROR'') \<and>
   status_map_get v \<in> {''PASSED'', ''WARNING'', ''CRITICAL'', ''ERROR''}"
  by (simp add: status_map_get_def status_map_def)

theorem status_map_total_witness:
  "''unknown'' \<notin> {''passed'', ''warning'', ''critical'', ''error'', ''failed''} \<and>
   status_map_get ''unknown'' = ''ERROR''"
  using status_map_total[of "''unknown''"] by simp

section \<open>Path permissions\<close>

lemma starts_with_any_iff:
  "starts_with_any ab p xs \<longleftrightarrow> (\<exists>x \<in> set xs. prefix (ab x) p)"
  by (induction xs) auto

text \<open>
  C10. \<^verbatim>\<open>is_path_allowed\<close> is true exactly when the absolute form of the path starts with
  the absolute form of no denied path and with the absolute form of some allowed path. So
  a denied prefix wins over the allowed list, and a path matching neither list is denied.
\<close>

theorem is_path_allowed_default_deny:
  "is_path_allowed ab cfg path \<longleftrightarrow>
     \<not> (\<exists>denied \<in> set (denied_paths (permissions cfg)). prefix (ab denied) (ab path)) \<and>
     (\<exists>allowed \<in> set (allowed_paths (permissions cfg)). prefix (ab allowed) (ab path))"
  by (simp add: is_path_allowed_def starts_with_any_iff Let_def)

theorem is_path_allowed_default_deny_witness:
  "is_path_allowed abspath_root default_config ''/var/log/syslog'' \<and>
   \<not> is_path_allowed abspath_root default_config ''/etc/shadow'' \<and>
   \<not> is_path_allowed abspath_root default_config ''/home/user'' \<and>
   \<not> is_path_allowed abspath_root
        (default_config\<lparr>permissions := (permissions default_config)\<lparr>allowed_paths := [''/etc'']\<rparr>\<rparr>)
        ''/etc/shadow.bak''"
  using is_path_allowed_default_deny[of abspath_root default_config "''/var/log/syslog''"]
        is_path_allowed_default_deny[of abspath_root default_config "''/etc/shadow''"]
        is_path_allowed_default_deny[of abspath_root default_config "''/home/user''"]
        is_path_allowed_default_deny[of abspath_root
          "default_config\<lparr>permissions := (permissions default_config)\<lparr>allowed_paths := [''/etc'']\<rparr>\<rparr>"
          "''/etc/shadow.bak''"]
  by (simp add: default_config_def abspath_root_def)

section \<open>Backoff policy\<close>

lemma length_backoff_list: "length (backoff_list et) = 3"
  by (simp add: backoff_list_def RATE_LIMIT_BACKOFF_def SERVER_ERROR_BACKOFF_def)

lemma sorted_backoff_list: "sorted (backoff_list et)"
  by (simp add: backoff_list_def RATE_LIMIT_BACKOFF_def SERVER_ERROR_BACKOFF_def)

lemma interval_at_mono: "i \<le> j \<Longrightarrow> interval_at et i \<le> interval_at et j"
  unfolding interval_at_def
  by (rule sorted_nth_mono[OF sorted_backoff_list]) (simp_all add: length_backoff_list)

lemma interval_at_le_last: "interval_at et i \<le> last (backoff_list et)"
proof -
  have "last (backoff_list et) = interval_at et 2"
    by (simp add: interval_at_def last_conv_nth length_backoff_list
        backoff_list_def RATE_LIMIT_BACKOFF_def SERVER_ERROR_BACKOFF_def)
  moreover have "interval_at et i = interval_at et (min i 2)"
    by (simp add: interval_at_def length_backoff_list)
  ultimately show ?thesis
    using interval_at_mono[of "min i 2" 2 et] by simp
qed

lemma interval_at_0: "interval_at et 0 = hd (backoff_list et)"
  by (simp add: interval_at_def backoff_list_def RATE_LIMIT_BACKOFF_def SERVER_ERROR_BACKOFF_def)

lemma get_backoff_interval_same:
  "last_error_type c = Some et \<Longrightarrow>
   get_backoff_interval et c =
     (interval_at et (current_backoff_index c),
      c\<lparr>current_backoff_index := current_backoff_index c + 1\<rparr>)"
  by (simp add: get_backoff_interval_def Let_def interval_at_def)

lemma get_backoff_interval_switch:
  "last_error_type c \<noteq> Some et \<Longrightarrow>
   get_backoff_interval et c =
     (interval_at et 0, c\<lparr>current_backoff_index := 1, last_error_type := Some et\<rparr>)"
  by (auto simp add: get_backoff_interval_def Let_def interval_at_def)

text \<open>Once the class is the last one seen, the calls read the table from the index on.\<close>

lemma backoff_calls_same:
  "last_error_type c = Some et \<Longrightarrow>
   fst (backoff_calls n et c) = map (\<lambda>k. interval_at et (current_backoff_index c + k)) [0..<n]"
proof (induction n arbitrary: c)
  case 0
  then show ?case by simp
next
  case (Suc n)
  let ?c1 = "c\<lparr>current_backoff_index := current_backoff_index c + 1\<rparr>"
  have l: "last_error_type ?c1 = Some et" using Suc.prems by simp
  have "fst (backoff_calls (Suc n) et c) =
          interval_at et (current_backoff_index c) # fst (backoff_calls n et ?c1)"
    using Suc.prems by (simp add: get_backoff_interval_same split: prod.splits)
  also have "fst (backoff_calls n et ?c1) =
     map (\<lambda>k. interval_at et (current_backoff_index c + Suc k)) [0..<n]"
    using Suc.IH[OF l] by simp
  finally show ?case
    by (simp add: upt_conv_Cons map_Suc_upt[symmetric] del: upt_Suc)
qed

lemma backoff_calls_same_sorted:
  assumes "last_error_type c = Some et"
  shows "sorted (fst (backoff_calls n et c))"
  unfolding backoff_calls_same[OF assms]
  by (auto simp: sorted_iff_nth_mono intro: interval_at_mono)

lemma backoff_calls_same_lower:
  assumes "last_error_type c = Some et" and "x \<in> set (fst (backoff_calls n et c))"
  shows "interval_at et (current_backoff_index c) \<le> x"
  using assms(2) unfolding backoff_calls_same[OF assms(1)]
  by (auto intro: interval_at_mono)

lemma backoff_calls_sorted: "sorted (fst (backoff_calls n et c))"
proof (cases n)
  case 0
  then show ?thesis by simp
next
  case (Suc m)
  obtain i c1 where g: "get_backoff_interval et c = (i, c1)" by force
  have l: "last_error_type c1 = Some et"
    using g by (auto simp: get_backoff_interval_def Let_def split: if_splits)
  have i: "i \<le> interval_at et (current_backoff_index c1)"
    using g get_backoff_interval_same[of c et] get_backoff_interval_switch[of c et]
    by (cases "last_error_type c = Some et") (auto intro: interval_at_mono)
  have "fst (backoff_calls n et c) = i # fst (backoff_calls m et c1)"
    using Suc g by (simp split: prod.splits)
  moreover have "\<forall>x \<in> set (fst (backoff_calls m et c1)). i \<le> x"
    using backoff_calls_same_lower[OF l] i by force
  ultimately show ?thesis
    using backoff_calls_same_sorted[OF l, of m] by simp
qed

lemma backoff_calls_bounded:
  "x \<in> set (fst (backoff_calls n et c)) \<Longrightarrow> x \<le> last (backoff_list et)"
proof (induction n arbitrary: c)
  case 0
  then show ?case by simp
next
  case (Suc n)
  obtain i c1 where g: "get_backoff_interval et c = (i, c1)" by force
  have i: "i \<le> last (backoff_list et)"
    using g get_backoff_interval_same[of c et] get_backoff_interval_switch[of c et]
    by (cases "last_error_type c = Some et") (auto intro: interval_at_le_last)
  from Suc.prems g have "x = i \<or> x \<in> set (fst (backoff_calls n et c1))"
    by (auto split: prod.splits)
  then show ?case using i Suc.IH by blast
qed

lemma request_success_resets:
  "server e (requests s) = Responded r \<Longrightarrow> 200 \<le> status_code r \<Longrightarrow> status_code r < 300 \<Longrightarrow>
   api_client (snd (request e s)) = reset_backoff (api_client s)"
  by (simp add: request_def handle_response_def Let_def)

text \<open>
  C3. From any state of the client, the intervals of \<open>n\<close> consecutive calls of
  \<^verbatim>\<open>get_backoff_interval\<close> with one error class are non-decreasing and at most the last
  entry of the table of that class (600 for the rate limit, 1200 for server errors). A
  request answered with a 2xx status leaves the index at 0 and no last error class, so the
  next call for any class returns the first entry of its table. A call with a class other
  than the last one seen returns the first entry of the table of the new class and leaves
  the index at 1.
\<close>

theorem backoff_monotone_bounded_reset:
  "sorted (fst (backoff_calls n error_type c)) \<and>
   (\<forall>x \<in> set (fst (backoff_calls n error_type c)). x \<le> last (backoff_list error_type)) \<and>
   backoff_list ''rate_limit'' = [120, 240, 600] \<and>
   backoff_list ''server_error'' = [300, 600, 1200] \<and>
   (server e (requests s) = Responded r \<and> 200 \<le> status_code r \<and> status_code r < 300 \<longrightarrow>
      current_backoff_index (api_client (snd (request e s))) = 0 \<and>
      last_error_type (api_client (snd (request e s))) = None \<and>
      fst (get_backoff_interval other_type (api_client (snd (request e s))))
        = hd (backoff_list other_type)) \<and>
   (last_error_type c \<noteq> Some error_type \<longrightarrow>
      get_backoff_interval error_type c =
        (hd (backoff_list error_type),
         c\<lparr>current_backoff_index := 1, last_error_type := Some error_type\<rparr>))"
proof (intro conjI impI ballI)
  show "sorted (fst (backoff_calls n error_type c))" by (rule backoff_calls_sorted)
next
  fix x assume "x \<in> set (fst (backoff_calls n error_type c))"
  then show "x \<le> last (backoff_list error_type)" by (rule backoff_calls_bounded)
next
  show "backoff_list ''rate_limit'' = [120, 240, 600]"
    by (simp add: backoff_list_def RATE_LIMIT_BACKOFF_def)
next
  show "backoff_list ''server_error'' = [300, 600, 1200]"
    by (simp add: backoff_list_def SERVER_ERROR_BACKOFF_def)
next
  assume a: "server e (requests s) = Responded r \<and> 200 \<le> status_code r \<and> status_code r < 300"
  then have r: "api_client (snd (request e s)) = reset_backoff (api_client s)"
    by (simp add: request_success_resets)
  show "current_backoff_index (api_client (snd (request e s))) = 0"
    by (simp add: r reset_backoff_def)
  show "last_error_type (api_client (snd (request e s))) = None"
    by (simp add: r reset_backoff_def)
  show "fst (get_backoff_interval other_type (api_client (snd (request e s))))
          = hd (backoff_list other_type)"
    by (simp add: r reset_backoff_def get_backoff_interval_switch interval_at_0)
next
  assume "last_error_type c \<noteq> Some error_type"
  then show "get_backoff_interval error_type c =
        (hd (backoff_list error_type),
         c\<lparr>current_backoff_index := 1, last_error_type := Some error_type\<rparr>)"
    by (simp add: get_backoff_interval_switch interval_at_0)
qed

theorem backoff_monotone_bounded_reset_witness:
  "fst (backoff_calls 5 ''rate_limit'' used_client) = [120, 240, 600, 600, 600] \<and>
   sorted (fst (backoff_calls 5 ''rate_limit'' used_client)) \<and>
   600 \<in> set (fst (backoff_calls 5 ''rate_limit'' used_client)) \<and>
   (600::int) \<le> last (backoff_list ''rate_limit'') \<and>
   server (env_of server_500_then_ok)
     (requests ((start_state (env_of server_500_then_ok) 1000)
                  \<lparr>requests := 1, api_client := used_client\<rparr>))
      = reply 200 (JDict []) None \<and>
   current_backoff_index (api_client (snd (request (env_of server_500_then_ok)
      ((start_state (env_of server_500_then_ok) 1000)
         \<lparr>requests := 1, api_client := used_client\<rparr>)))) = 0 \<and>
   last_error_type used_client \<noteq> Some ''rate_limit'' \<and>
   get_backoff_interval ''rate_limit'' used_client =
     (120, used_client\<lparr>current_backoff_index := 1, last_error_type := Some ''rate_limit''\<rparr>)"
proof -
  let ?e = "env_of server_500_then_ok"
  let ?s = "(start_state ?e 1000)\<lparr>requests := 1, api_client := used_client\<rparr>"
  let ?r = "\<lparr>status_code = 200, body = Some (JDict []), text_of = [], retry_after_header = None\<rparr>"
  have calls: "fst (backoff_calls 5 ''rate_limit'' used_client) = [120, 240, 600, 600, 600]"
    by code_simp
  have srv: "server ?e (requests ?s) = Responded ?r"
    by (simp add: env_of_def server_500_then_ok_def reply_def)
  have l: "last_error_type used_client \<noteq> Some ''rate_limit''"
    by (simp add: used_client_def)
  have hd: "hd (backoff_list ''rate_limit'') = 120"
    by (simp add: backoff_list_def RATE_LIMIT_BACKOFF_def)
  from backoff_monotone_bounded_reset[of 5 "''rate_limit''" used_client ?e ?s ?r "''rate_limit''"]
  show ?thesis using calls srv l hd by (simp add: reply_def)
qed

section \<open>Task parsing\<close>

lemma parse_task_dict: "parse_task td = Inr task \<Longrightarrow> \<exists>kvs. td = JDict kvs"
  by (cases td) (simp_all add: parse_task_def)

lemma parse_task_fields:
  assumes "parse_task (JDict kvs) = Inr task"
  shows "tid task =
           (case map_of kvs ''taskId'' of
              Some v \<Rightarrow> if truthy v then v
                        else (case map_of kvs ''id'' of Some w \<Rightarrow> w | None \<Rightarrow> JNull)
            | None \<Rightarrow> (case map_of kvs ''id'' of Some w \<Rightarrow> w | None \<Rightarrow> JNull))"
    and "config task =
           (case map_of kvs ''checkConfig'' of
              Some v \<Rightarrow> if truthy v then v
                        else (case map_of kvs ''config'' of Some w \<Rightarrow> w | None \<Rightarrow> JDict [])
            | None \<Rightarrow> (case map_of kvs ''config'' of Some w \<Rightarrow> w | None \<Rightarrow> JDict []))"
  using assms
  by (auto simp: parse_task_def py_or_def split: sum.splits option.splits)

lemma parse_tasks_nth:
  "parse_tasks items = Inr tasks \<Longrightarrow> i < length items \<Longrightarrow>
   i < length tasks \<and> parse_task (items ! i) = Inr (tasks ! i)"
proof (induction items arbitrary: tasks i)
  case Nil
  then show ?case by simp
next
  case (Cons a items)
  then show ?case
    by (cases i) (auto split: sum.splits)
qed

text \<open>
  C8, as the specification states it, fails: a \<^verbatim>\<open>taskId\<close> that is present and null and a
  \<^verbatim>\<open>checkConfig\<close> that is present and empty are both passed over for \<^verbatim>\<open>id\<close> and
  \<^verbatim>\<open>config\<close>.
\<close>

theorem get_tasks_present_field_counterexample:
  "tasks_of_response (JDict [(''data'', JDict [(''tasks'', JList [JDict both_conventions])])])
     = Inr [parsed_both] \<and>
   map_of both_conventions ''taskId'' = Some JNull \<and>
   map_of both_conventions ''checkConfig'' = Some (JDict []) \<and>
   tid parsed_both \<noteq> claimed_id both_conventions \<and>
   config parsed_both \<noteq> claimed_config both_conventions"
  by code_simp

text \<open>
  C8, amended. For every task object that \<^verbatim>\<open>get_tasks\<close> parses, the identifier is the value
  of \<^verbatim>\<open>taskId\<close> when that key is present with a truthy value, and otherwise the value of
  \<^verbatim>\<open>id\<close> (\<^verbatim>\<open>None\<close> when \<^verbatim>\<open>id\<close> is absent); the configuration is the value of
  \<^verbatim>\<open>checkConfig\<close> when that key is present with a truthy value, and otherwise the value of
  \<^verbatim>\<open>config\<close>, or an empty map when \<^verbatim>\<open>config\<close> is absent. (Every item that parses is an
  object, by \<open>parse_task_dict\<close>.)
\<close>

theorem get_tasks_field_fallback:
  assumes "parse_tasks (map JDict objs) = Inr tasks" and "i < length objs"
  shows "tid (tasks ! i) =
           (case map_of (objs ! i) ''taskId'' of
              Some v \<Rightarrow> if truthy v then v
                        else (case map_of (objs ! i) ''id'' of Some w \<Rightarrow> w | None \<Rightarrow> JNull)
            | None \<Rightarrow> (case map_of (objs ! i) ''id'' of Some w \<Rightarrow> w | None \<Rightarrow> JNull)) \<and>
         config (tasks ! i) =
           (case map_of (objs ! i) ''checkConfig'' of
              Some v \<Rightarrow> if truthy v then v
                        else (case map_of (objs ! i) ''config'' of Some w \<Rightarrow> w | None \<Rightarrow> JDict [])
            | None \<Rightarrow> (case map_of (objs ! i) ''config'' of Some w \<Rightarrow> w | None \<Rightarrow> JDict []))"
proof -
  from parse_tasks_nth[OF assms(1), of i] assms(2)
  have "parse_task (JDict (objs ! i)) = Inr (tasks ! i)" by simp
  then show ?thesis using parse_task_fields by blast
qed

theorem get_tasks_field_fallback_witness:
  "parse_tasks (map JDict [both_conventions, new_convention]) = Inr [parsed_both, parsed_new] \<and>
   (1::nat) < length [both_conventions, new_convention] \<and>
   tid ([parsed_both, parsed_new] ! 1) = JStr ''t-18'' \<and>
   config ([parsed_both, parsed_new] ! 1) = JDict [(''paths'', JList [JStr ''/var/www''])]"
proof -
  have p: "parse_tasks (map JDict [both_conventions, new_convention])
             = Inr [parsed_both, parsed_new]"
    by code_simp
  have l: "(1::nat) < length [both_conventions, new_convention]" by simp
  from get_tasks_field_fallback[OF p l] show ?thesis
    using p by (simp add: new_convention_def)
qed

section \<open>Per-task dispatch\<close>

lemma trace_request: "trace (snd (request e s)) = trace s"
  by (simp add: request_def Let_def split: transport.splits prod.splits)

lemma submit_result_trace:
  "submit_result e r s = (res, s1) \<Longrightarrow> trace s1 = trace s @ [SubmitResult r]"
  using trace_request[of e "emit (SubmitResult r) s"]
  by (simp add: submit_result_def emit_def)

lemma submit_error_result_trace:
  "submit_error_result e task msg dur s = (res, s1) \<Longrightarrow>
   trace s1 = trace s @ [SubmitResult \<lparr>task_id = tid task, status = ''ERROR'', score = 0,
                              message = Some msg, details = None, duration = Some dur\<rparr>]"
  by (auto simp: submit_error_result_def split: prod.splits sum.splits if_splits
           dest: submit_result_trace)

lemma submit_error_result_raises:
  "submit_error_result e task msg dur s = (Inl ex, s1) \<Longrightarrow> \<not> is_ApiError ex"
  by (auto simp: submit_error_result_def split: prod.splits sum.splits if_splits)

lemma submit_error_result_appends:
  "submit_error_result e task msg dur s = (res, s1) \<Longrightarrow>
   \<exists>ev. trace s1 = trace s @ [ev] \<and> is_error_result_for task ev"
  by (auto dest!: submit_error_result_trace)

text \<open>What the \<^verbatim>\<open>try\<close> of \<^verbatim>\<open>_execute_task\<close> appends to the trace.\<close>

lemma execute_task_try_shapes:
  assumes "execute_task_try e task st s = (res, s1)"
  shows "(\<exists>r. trace s1 = trace s @ [SubmitResult r]) \<or>
         (\<exists>r. trace s1 = trace s @ [Create (check_type task), SubmitResult r]) \<or>
         (\<exists>r. trace s1 = trace s @ [Create (check_type task), Execute, SubmitResult r]) \<or>
         ((\<exists>ex. res = Inl ex) \<and>
            (trace s1 = trace s \<or> trace s1 = trace s @ [Create (check_type task)] \<or>
             trace s1 = trace s @ [Create (check_type task), Execute]))"
  using assms unfolding execute_task_try_def Let_def
  by (auto simp: emit_def split: sum.splits option.splits prod.splits
           dest!: submit_result_trace submit_error_result_trace)

lemma execute_task_try_submissions:
  assumes "execute_task_try e task st s = (res, s1)"
  shows "(res = Inr () \<longrightarrow> length (submissions s1) = length (submissions s) + 1) \<and>
         length (submissions s) \<le> length (submissions s1) \<and>
         length (submissions s1) \<le> length (submissions s) + 1"
  using execute_task_try_shapes[OF assms]
  by (auto simp: submissions_def)

text \<open>
  Every task that enters \<^verbatim>\<open>_execute_task\<close> is submitted at least once and at most twice,
  whatever the check and the server do.
\<close>

lemma execute_task_submits_once_or_twice:
  "length (submissions (snd (execute_task e task s))) = length (submissions s) + 1 \<or>
   length (submissions (snd (execute_task e task s))) = length (submissions s) + 2"
proof -
  obtain res s1 where t: "execute_task_try e task (clock s) s = (res, s1)" by force
  note c = execute_task_try_submissions[OF t]
  show ?thesis
  proof (cases res)
    case (Inr u)
    then show ?thesis using t c by (simp add: execute_task_def)
  next
    case (Inl ex)
    obtain res2 s2
      where h: "submit_error_result e task (str_exn ex) (elapsed_ms (clock s) s1) s1 = (res2, s2)"
      by force
    have "length (submissions s2) = length (submissions s1) + 1"
      using submit_error_result_trace[OF h] by (simp add: submissions_def)
    moreover have "snd (execute_task e task s) = s2"
      using t Inl h by (simp add: execute_task_def)
    ultimately show ?thesis using c by auto
  qed
qed

text \<open>
  C1. The check of the task returns Passed with score 100 and the server answers the
  submission of that result with HTTP 500. \<^verbatim>\<open>submit_result\<close> raises \<^verbatim>\<open>ServerError\<close> inside
  the \<^verbatim>\<open>try\<close>, \<^verbatim>\<open>except Exception\<close> catches it and submits an Error result: two submission
  attempts for one task, where the claim says exactly one.
\<close>

theorem success_submission_failure_submits_twice:
  "execute_task (env_of server_500_then_ok) (disk_task (JDict []))
       (start_state (env_of server_500_then_ok) 1000) =
     (Inr (),
      (start_state (env_of server_500_then_ok) 1000)
        \<lparr>requests := 2,
         trace :=
           [Create (JStr ''DISK_USAGE''), Execute,
            SubmitResult \<lparr>task_id = JStr ''t1'', status = ''PASSED'', score = 100,
                          message = Some [Lit ''ok''], details = Some (JDict []),
                          duration = Some 0\<rparr>,
            SubmitResult \<lparr>task_id = JStr ''t1'', status = ''ERROR'', score = 0,
                          message = Some [Lit ''['', Fmt (JInt 500), Lit ''] '', Fmt (JStr ''boom'')],
                          details = None, duration = Some 0\<rparr>]\<rparr>) \<and>
   length (submissions (snd (execute_task (env_of server_500_then_ok) (disk_task (JDict []))
       (start_state (env_of server_500_then_ok) 1000)))) = 2"
  by code_simp

subsection \<open>Denied paths\<close>

lemma first_denied_finds:
  "JStr p \<in> set paths \<Longrightarrow> \<not> is_path_allowed (abspath e) (agent_config e) p \<Longrightarrow>
   first_denied e paths \<noteq> Inr None"
  by (induction e paths rule: first_denied.induct) auto

text \<open>
  A task whose paths hold a denied path never reaches \<^verbatim>\<open>CheckRegistry.create\<close> or
  \<^verbatim>\<open>execute()\<close>: all that \<^verbatim>\<open>_execute_task\<close> does is submit one or two Error results for it.
\<close>

lemma denied_path_never_creates:
  assumes paths: "dict_get (config task) ''paths'' (JList []) = Inr task_paths"
                 "py_iter task_paths = Inr paths"
    and denied: "JStr p \<in> set paths" "\<not> is_path_allowed (abspath e) (agent_config e) p"
  shows "\<exists>evs. trace (snd (execute_task e task s)) = trace s @ evs \<and>
               (length evs = 1 \<or> length evs = 2) \<and> list_all (is_error_result_for task) evs"
proof -
  note nf = first_denied_finds[OF denied]
  show ?thesis
  proof (cases "first_denied e paths")
    case (Inl ex)
    then have "execute_task_try e task (clock s) s = (Inl ex, s)"
      using paths by (simp add: execute_task_try_def)
    then have "execute_task e task s =
                 submit_error_result e task (str_exn ex) (elapsed_ms (clock s) s) s"
      by (simp add: execute_task_def)
    then show ?thesis
      using submit_error_result_appends[of e task "str_exn ex" "elapsed_ms (clock s) s" s]
      by (cases "submit_error_result e task (str_exn ex) (elapsed_ms (clock s) s) s") auto
  next
    case (Inr found)
    then obtain path where f: "first_denied e paths = Inr (Some path)"
      using nf by (cases found) auto
    let ?m = "[Lit ''Path not allowed by agent permissions: '', Fmt path]"
    obtain r1 s1 where a: "submit_error_result e task ?m (elapsed_ms (clock s) s) s = (r1, s1)"
      by force
    have t: "execute_task_try e task (clock s) s = (r1, s1)"
      using paths f a by (simp add: execute_task_try_def)
    from submit_error_result_appends[OF a]
    obtain ev1 where e1: "trace s1 = trace s @ [ev1]" "is_error_result_for task ev1" by blast
    show ?thesis
    proof (cases r1)
      case (Inr u)
      then have "snd (execute_task e task s) = s1" using t by (simp add: execute_task_def)
      then show ?thesis using e1 by simp
    next
      case (Inl ex)
      obtain r2 s2
        where b: "submit_error_result e task (str_exn ex) (elapsed_ms (clock s) s1) s1 = (r2, s2)"
        by force
      from submit_error_result_appends[OF b]
      obtain ev2 where e2: "trace s2 = trace s1 @ [ev2]" "is_error_result_for task ev2" by blast
      have "snd (execute_task e task s) = s2" using t Inl b by (simp add: execute_task_def)
      then show ?thesis using e1 e2 by simp
    qed
  qed
qed

text \<open>
  C6. The task names the denied path \<^verbatim>\<open>/etc/shadow\<close>, and the server answers the
  submission of the Error result with HTTP 429 and a \<^verbatim>\<open>Retry-After\<close> header that holds an
  HTTP date. \<^verbatim>\<open>int()\<close> raises \<^verbatim>\<open>ValueError\<close> in \<^verbatim>\<open>_handle_response\<close>, which
  \<^verbatim>\<open>except ApiError\<close> in \<^verbatim>\<open>_submit_error_result\<close> does not catch and \<^verbatim>\<open>except Exception\<close>
  in \<^verbatim>\<open>_execute_task\<close> does: a second Error result is submitted, where the claim says
  exactly one. No check is created or executed.
\<close>

theorem denied_path_submits_twice:
  "\<not> is_path_allowed abspath_root default_config ''/etc/shadow'' \<and>
   trace (snd (execute_task (env_of server_429_date) denied_task
                 (start_state (env_of server_429_date) 1000))) =
     [SubmitResult \<lparr>task_id = JStr ''t1'', status = ''ERROR'', score = 0,
                    message = Some [Lit ''Path not allowed by agent permissions: '',
                                    Fmt (JStr ''/etc/shadow'')],
                    details = None, duration = Some 0\<rparr>,
      SubmitResult \<lparr>task_id = JStr ''t1'', status = ''ERROR'', score = 0,
                    message = Some [Lit ''ValueError''], details = None, duration = Some 0\<rparr>]"
  by code_simp

section \<open>The loop\<close>

lemma request_frame:
  "request e s = (res, s1) \<Longrightarrow>
   running s1 = running s \<and> current_poll_interval s1 = current_poll_interval s \<and>
   clock s1 = clock s \<and> last_heartbeat s1 = last_heartbeat s"
  by (auto simp: request_def Let_def split: transport.splits prod.splits)

lemma submit_error_result_frame:
  "submit_error_result e task msg dur s = (res, s1) \<Longrightarrow>
   running s1 = running s \<and> current_poll_interval s1 = current_poll_interval s"
  by (auto simp: submit_error_result_def submit_result_def emit_def
           split: prod.splits sum.splits if_splits dest!: request_frame)

lemma execute_task_try_frame:
  "execute_task_try e task st s = (res, s1) \<Longrightarrow>
   running s1 = running s \<and> current_poll_interval s1 = current_poll_interval s"
  unfolding execute_task_try_def Let_def
  by (auto simp: submit_result_def emit_def
           split: sum.splits option.splits prod.splits
           dest!: request_frame submit_error_result_frame)

lemma execute_task_frame:
  assumes "execute_task e task s = (res, s1)"
  shows "running s1 = running s \<and> current_poll_interval s1 = current_poll_interval s"
proof -
  obtain r0 s0 where t: "execute_task_try e task (clock s) s = (r0, s0)" by force
  note f = execute_task_try_frame[OF t]
  show ?thesis
  proof (cases r0)
    case (Inr u)
    then show ?thesis using assms t f by (simp add: execute_task_def)
  next
    case (Inl ex)
    then have "submit_error_result e task (str_exn ex) (elapsed_ms (clock s) s0) s0 = (res, s1)"
      using assms t by (simp add: execute_task_def)
    from submit_error_result_frame[OF this] f show ?thesis by simp
  qed
qed

lemma execute_task_raises:
  assumes "execute_task e task s = (Inl ex, s1)"
  shows "\<not> is_ApiError ex"
proof -
  obtain r0 s0 where t: "execute_task_try e task (clock s) s = (r0, s0)" by force
  show ?thesis
  proof (cases r0)
    case (Inr u)
    then show ?thesis using assms t by (simp add: execute_task_def)
  next
    case (Inl ex0)
    then have "submit_error_result e task (str_exn ex0) (elapsed_ms (clock s) s0) s0 = (Inl ex, s1)"
      using assms t by (simp add: execute_task_def)
    then show ?thesis by (rule submit_error_result_raises)
  qed
qed

lemma execute_tasks_frame:
  "execute_tasks e tasks s = (res, s1) \<Longrightarrow>
   running s1 = running s \<and> current_poll_interval s1 = current_poll_interval s \<and>
   (\<forall>ex. res = Inl ex \<longrightarrow> \<not> is_ApiError ex)"
proof (induction tasks arbitrary: s)
  case Nil
  then show ?case by auto
next
  case (Cons task rest)
  show ?case
  proof (cases "running s")
    case False
    then show ?thesis using Cons.prems by auto
  next
    case True
    obtain r0 s0 where t: "execute_task e task s = (r0, s0)" by force
    note f = execute_task_frame[OF t]
    show ?thesis
    proof (cases r0)
      case (Inl ex)
      then show ?thesis
        using Cons.prems True t f execute_task_raises[of e task s ex s0] by auto
    next
      case (Inr u)
      then have "execute_tasks e rest s0 = (res, s1)" using Cons.prems True t by simp
      from Cons.IH[OF this] f show ?thesis by simp
    qed
  qed
qed

text \<open>
  \<^verbatim>\<open>_send_heartbeat\<close> and \<^verbatim>\<open>_poll_tasks\<close> catch \<^verbatim>\<open>ApiError\<close>, the base class of the
  authentication, rate limit, server and connection errors, so none of these leaves them.
\<close>

lemma send_heartbeat_frame:
  "send_heartbeat e s = (res, s1) \<Longrightarrow>
   running s1 = running s \<and>
   (current_poll_interval s1 = current_poll_interval s \<or>
    current_poll_interval s1 = poll_interval (api (agent_config e))) \<and>
   (\<forall>ex. res = Inl ex \<longrightarrow> \<not> is_ApiError ex)"
  by (auto simp: send_heartbeat_def heartbeat_def emit_def
           split: prod.splits sum.splits if_splits dest!: request_frame)

lemma poll_tasks_frame:
  "poll_tasks e s = (res, s1) \<Longrightarrow>
   running s1 = running s \<and> current_poll_interval s1 = current_poll_interval s \<and>
   (\<forall>ex. res = Inl ex \<longrightarrow> \<not> is_ApiError ex)"
  by (auto simp: poll_tasks_def get_tasks_def emit_def tasks_of_response_def
           split: prod.splits sum.splits if_splits dest!: request_frame)

lemma sleep_frame:
  "sleep d s = (res, s1) \<Longrightarrow>
   running s1 = running s \<and> current_poll_interval s1 = current_poll_interval s \<and>
   (\<forall>ex. res = Inl ex \<longrightarrow> \<not> is_ApiError ex)"
  by (auto simp: sleep_def emit_def split: if_splits)

lemma heartbeat_step_frame:
  assumes "(if clock s - last_heartbeat s \<ge> 60
            then (case send_heartbeat e s of
                    (Inl ex, s1) \<Rightarrow> (Inl ex, s1)
                  | (Inr _, s1) \<Rightarrow> (Inr (), s1\<lparr>last_heartbeat := clock s\<rparr>))
            else (Inr (), s)) = (res, s1)"
  shows "running s1 = running s \<and>
         (current_poll_interval s1 = current_poll_interval s \<or>
          current_poll_interval s1 = poll_interval (api (agent_config e))) \<and>
         (\<forall>ex. res = Inl ex \<longrightarrow> \<not> is_ApiError ex)"
proof (cases "clock s - last_heartbeat s \<ge> 60")
  case False
  then show ?thesis using assms by auto
next
  case True
  obtain r0 s0 where h: "send_heartbeat e s = (r0, s0)" by force
  from send_heartbeat_frame[OF h] assms True h show ?thesis
    by (cases r0) auto
qed

lemma loop_try_frame:
  assumes "loop_try e s = (res, s1)"
  shows "running s1 = running s \<and>
         (current_poll_interval s1 = current_poll_interval s \<or>
          current_poll_interval s1 = poll_interval (api (agent_config e))) \<and>
         (\<forall>ex. res = Inl ex \<longrightarrow> \<not> is_ApiError ex)"
proof -
  obtain ra sa where a: "(if clock s - last_heartbeat s \<ge> 60
            then (case send_heartbeat e s of
                    (Inl ex, s1) \<Rightarrow> (Inl ex, s1)
                  | (Inr _, s1) \<Rightarrow> (Inr (), s1\<lparr>last_heartbeat := clock s\<rparr>))
            else (Inr (), s)) = (ra, sa)" by force
  note fa = heartbeat_step_frame[OF a]
  show ?thesis
  proof (cases ra)
    case (Inl ex)
    then have "res = Inl ex \<and> s1 = sa" using assms a by (simp add: loop_try_def Let_def)
    then show ?thesis using fa Inl by simp
  next
    case (Inr u)
    obtain rb sb where b: "poll_tasks e sa = (rb, sb)" by force
    note fb = poll_tasks_frame[OF b]
    show ?thesis
    proof (cases rb)
      case (Inl ex)
      then have "res = Inl ex \<and> s1 = sb"
        using assms a b Inr by (simp add: loop_try_def Let_def)
      then show ?thesis using fa fb Inl by simp
    next
      case (Inr tasks)
      obtain rc sc where c: "execute_tasks e tasks sb = (rc, sc)" by force
      note fc = execute_tasks_frame[OF c]
      show ?thesis
      proof (cases rc)
        case (Inl ex)
        then have "res = Inl ex \<and> s1 = sc"
          using assms a b c \<open>ra = Inr u\<close> Inr by (simp add: loop_try_def Let_def)
        then show ?thesis using fa fb fc Inl by simp
      next
        case (Inr v)
        then have "sleep (current_poll_interval sc) sc = (res, s1)"
          using assms a b c \<open>ra = Inr u\<close> \<open>rb = Inr tasks\<close>
          by (simp add: loop_try_def Let_def)
        from sleep_frame[OF this] fa fb fc show ?thesis by simp
      qed
    qed
  qed
qed

lemma loop_except_frame:
  "\<not> is_ApiError ex \<Longrightarrow>
   running (loop_except ex s) = running s \<and>
   current_poll_interval (loop_except ex s) = current_poll_interval s"
  by (cases ex) (simp_all add: sleep_def emit_def)

text \<open>
  So the \<^verbatim>\<open>except\<close> clauses of the loop for the four API errors are never entered: no
  answer of the server ends the loop, and the poll interval is never set to a backoff
  value.
\<close>

lemma iteration_keeps_running: "running (iteration e s) = running s"
proof -
  obtain res s1 where t: "loop_try e s = (res, s1)" by force
  from loop_try_frame[OF t] loop_except_frame[of _ s1] t show ?thesis
    by (cases res) (auto simp: iteration_def)
qed

lemma iteration_poll_interval:
  "current_poll_interval (iteration e s) = current_poll_interval s \<or>
   current_poll_interval (iteration e s) = poll_interval (api (agent_config e))"
proof -
  obtain res s1 where t: "loop_try e s = (res, s1)" by force
  from loop_try_frame[OF t] loop_except_frame[of _ s1] t show ?thesis
    by (cases res) (auto simp: iteration_def)
qed

lemma run_keeps_running: "running (run n e s) = running s"
  by (induction n arbitrary: s) (simp_all add: iteration_keeps_running)

text \<open>
  One iteration against the healthy server: a heartbeat, a poll, the Passed result of the
  first task, the Error result of the second, and the sleep.
\<close>

lemma healthy_iteration:
  "trace (iteration (env_of server_two_tasks) (start_state (env_of server_two_tasks) 1000)) =
     [Heartbeat, GetTasks,
      Create (JStr ''DISK_USAGE''), Execute,
      SubmitResult \<lparr>task_id = JStr ''t1'', status = ''PASSED'', score = 100,
                    message = Some [Lit ''ok''], details = Some (JDict []), duration = Some 0\<rparr>,
      Create (JStr ''X''),
      SubmitResult \<lparr>task_id = JStr ''t2'', status = ''ERROR'', score = 0,
                    message = Some [Lit ''Unknown check type: '', Fmt (JStr ''X'')],
                    details = None, duration = Some 0\<rparr>,
      Sleep 60]"
  by code_simp

text \<open>
  C2. The server answers the first heartbeat with HTTP 401, so \<^verbatim>\<open>heartbeat\<close> raises
  \<^verbatim>\<open>AuthenticationError\<close>. \<^verbatim>\<open>_send_heartbeat\<close> catches it as an \<^verbatim>\<open>ApiError\<close>: the agent
  is still running after the iteration, polls for tasks in it and again in the next one,
  where the claim says that the loop stops.
\<close>

theorem heartbeat_401_keeps_running:
  "fst (heartbeat (env_of server_401) (start_state (env_of server_401) 1000)) =
     Inl (AuthenticationError (JStr ''Invalid API key'') 401) \<and>
   running (iteration (env_of server_401) (start_state (env_of server_401) 1000)) \<and>
   trace (iteration (env_of server_401) (start_state (env_of server_401) 1000)) =
     [Heartbeat, GetTasks, Sleep 60] \<and>
   running (run 2 (env_of server_401) (start_state (env_of server_401) 1000)) \<and>
   trace (run 2 (env_of server_401) (start_state (env_of server_401) 1000)) =
     [Heartbeat, GetTasks, Sleep 60, Heartbeat, GetTasks, Sleep 60]"
  by code_simp

text \<open>
  C4. The server answers the first heartbeat with HTTP 429 and \<^verbatim>\<open>Retry-After: 300\<close>, so
  \<^verbatim>\<open>heartbeat\<close> raises \<^verbatim>\<open>RateLimitError\<close>. \<^verbatim>\<open>_send_heartbeat\<close> catches it as an
  \<^verbatim>\<open>ApiError\<close>: the poll interval stays at the configured 60 seconds and
  \<^verbatim>\<open>get_backoff_interval\<close> is not called, where the claim says that the interval becomes
  120 seconds.
\<close>

theorem heartbeat_429_keeps_poll_interval:
  "fst (heartbeat (env_of server_429) (start_state (env_of server_429) 1000)) =
     Inl (RateLimitError (JStr ''Too many requests'') 429 300) \<and>
   current_poll_interval (start_state (env_of server_429) 1000) = 60 \<and>
   current_poll_interval (iteration (env_of server_429) (start_state (env_of server_429) 1000)) = 60 \<and>
   hd RATE_LIMIT_BACKOFF = 120 \<and>
   api_client (iteration (env_of server_429) (start_state (env_of server_429) 1000)) =
     \<lparr>current_backoff_index = 0, last_error_type = None, closed = False\<rparr> \<and>
   trace (iteration (env_of server_429) (start_state (env_of server_429) 1000)) =
     [Heartbeat, GetTasks, Sleep 60]"
  by code_simp

end
